theory Spec2Isabelle
  imports Main "HOL-Library.Multiset" "HOL-Library.Sublist"
begin

section \<open>AuditManager: values, request context and audit records\<close>

text \<open>
  The module \<^verbatim>\<open>packages/core/server/src/audit-manager/index.ts\<close> is embedded
  function by function. JavaScript values that the code only stores, tests for
  truthiness or copies are values of \<open>jsval\<close>. Numbers are the integral ones
  (status codes, ids); an object is the list of its properties, with distinct
  keys, read with \<open>map_of\<close>. A buffer and the four stream classes tested by
  \<^verbatim>\<open>isStream\<close> are values of their own.
\<close>

datatype stream_class = Readable | Writable | Duplex | Transform

datatype jsval =
    JUndefined
  | JNull
  | JBool bool
  | JNum int
  | JStr string
  | JArr "jsval list"
  | JObj "(string \<times> jsval) list"
  | JBuffer "nat list"
  | JStream stream_class

type_synonym jsobj = "(string \<times> jsval) list"

text \<open>Truthiness, as tested by \<^verbatim>\<open>if (v)\<close>.\<close>

fun truthy :: "jsval \<Rightarrow> bool" where
  "truthy JUndefined = False"
| "truthy JNull = False"
| "truthy (JBool b) = b"
| "truthy (JNum n) = (n \<noteq> 0)"
| "truthy (JStr s) = (s \<noteq> [])"
| "truthy (JArr _) = True"
| "truthy (JObj _) = True"
| "truthy (JBuffer _) = True"
| "truthy (JStream _) = True"

text \<open>Property read \<^verbatim>\<open>v.k\<close> on a value that is not null or undefined.\<close>

fun get_prop :: "jsval \<Rightarrow> string \<Rightarrow> jsval" where
  "get_prop (JObj kvs) k = (case map_of kvs k of Some v \<Rightarrow> v | None \<Rightarrow> JUndefined)"
| "get_prop _ k = JUndefined"

text \<open>
  Object spread \<^verbatim>\<open>{ ...a, ...b }\<close>: the properties of \<open>a\<close> are copied into a
  fresh object, then those of \<open>b\<close>; a key already present keeps its place and
  takes the new value.
\<close>

fun obj_set :: "string \<Rightarrow> jsval \<Rightarrow> jsobj \<Rightarrow> jsobj" where
  "obj_set k v [] = [(k, v)]"
| "obj_set k v (p # ps) = (if fst p = k then (k, v) # ps else p # obj_set k v ps)"

definition obj_assign :: "jsobj \<Rightarrow> jsobj \<Rightarrow> jsobj" where
  "obj_assign target src = foldl (\<lambda>acc kv. obj_set (fst kv) (snd kv) acc) target src"

definition spread2 :: "jsobj \<Rightarrow> jsobj \<Rightarrow> jsobj" where
  "spread2 a b = obj_assign (obj_assign [] a) b"

text \<open>\<^verbatim>\<open>isStream\<close> (lines 13-20) and \<^verbatim>\<open>Buffer.isBuffer\<close>.\<close>

fun isStream :: "jsval \<Rightarrow> bool" where
  "isStream (JStream Readable) = True"
| "isStream (JStream Writable) = True"
| "isStream (JStream Duplex) = True"
| "isStream (JStream Transform) = True"
| "isStream _ = False"

fun isBuffer :: "jsval \<Rightarrow> bool" where
  "isBuffer (JBuffer _) = True"
| "isBuffer _ = False"

text \<open>
  A thrown value is an \<^verbatim>\<open>Error\<close> object: both handlers of the module read
  \<^verbatim>\<open>err.message\<close> from it.
\<close>

datatype js_error = Error (message: string)

text \<open>
  The request context, with the fields the module reads. \<open>ctx_resourceName\<close> is
  \<^verbatim>\<open>ctx.action.resourceName\<close> (\<open>None\<close> when undefined), \<open>ctx_filterKeys\<close> is
  \<^verbatim>\<open>ctx.action.params.filterKeys\<close> (\<open>None\<close> when undefined), \<open>ctx_currentUser_id\<close>
  is \<^verbatim>\<open>ctx.state?.currentUser?.id\<close>, \<open>ctx_log\<close> tells whether \<^verbatim>\<open>ctx.log\<close> exists.
\<close>

record Context =
  ctx_reqId :: string
  ctx_resourceName :: "string option"
  ctx_actionName :: string
  ctx_filterByTk :: jsval
  ctx_filterKeys :: "string list option"
  ctx_request_params :: jsval
  ctx_request_query :: jsval
  ctx_request_body :: jsval
  ctx_header_x_data_source :: "string option"
  ctx_header_user_agent :: "string option"
  ctx_request_ip :: string
  ctx_currentUser_id :: jsval
  ctx_currentRole :: jsval
  ctx_response_status :: int
  ctx_status :: int
  ctx_body :: jsval
  ctx_log :: bool

text \<open>The interface \<^verbatim>\<open>AuditLog\<close> (lines 22-36).\<close>

record audit_log =
  uuid :: string
  dataSource :: string
  resource :: "string option"
  collection :: string
  association :: string
  action :: string
  resourceUk :: jsval
  userId :: jsval
  roleName :: jsval
  ip :: string
  ua :: "string option"
  status :: int
  metadata :: jsval

text \<open>
  \<^verbatim>\<open>AuditLogger.log\<close> returns a promise. The call can throw at once, or return a
  promise that resolves or rejects later; \<^verbatim>\<open>output\<close> drops the promise.
\<close>

datatype sink_result = SinkResolves | SinkThrows js_error | SinkRejects js_error

text \<open>
  The type \<^verbatim>\<open>Action\<close> (lines 42-49): a string, or an object with a name and two
  optional hooks. A hook is awaited, so a throw and a rejection are the same
  \<open>Inl\<close>.
\<close>

record rule =
  name :: string
  getMetaData :: "(Context \<Rightarrow> js_error + jsobj) option"
  getUserInfo :: "(Context \<Rightarrow> js_error + jsval) option"

datatype Action = ActString string | ActObject rule

text \<open>The class \<^verbatim>\<open>AuditManager\<close>: the optional logger and the two-level map.\<close>

record manager =
  logger :: "(audit_log \<Rightarrow> sink_result) option"
  resources :: "string \<rightharpoonup> (string \<rightharpoonup> rule)"

definition new_manager :: manager where
  "new_manager = \<lparr>logger = None, resources = Map.empty\<rparr>"

definition setLogger :: "(audit_log \<Rightarrow> sink_result) \<Rightarrow> manager \<Rightarrow> manager" where
  "setLogger l m = m\<lparr>logger := Some l\<rparr>"

section \<open>Registration\<close>

text \<open>The character class \<^verbatim>\<open>[a-zA-Z0-9_-]\<close>.\<close>

definition nameChar :: "char \<Rightarrow> bool" where
  "nameChar c =
     (c \<in> set ''abcdefghijklmnopqrstuvwxyzABCDEFGHIJKLMNOPQRSTUVWXYZ0123456789_-'')"

text \<open>
  The three regular expressions of \<^verbatim>\<open>registerAction\<close> (lines 122-124). The
  class excludes \<^verbatim>\<open>:\<close>, so the first group of a match is the longest prefix of
  name characters.
\<close>

definition nameRegex :: "string \<Rightarrow> bool" where
  "nameRegex s = (s \<noteq> [] \<and> list_all nameChar s)"

definition resourceWildcardRegex :: "string \<Rightarrow> string option" where
  "resourceWildcardRegex s =
     (let r = takeWhile nameChar s
      in if r \<noteq> [] \<and> dropWhile nameChar s = '':*'' then Some r else None)"

definition resourceAndActionRegex :: "string \<Rightarrow> (string \<times> string) option" where
  "resourceAndActionRegex s =
     (let r = takeWhile nameChar s
      in case dropWhile nameChar s of
           [] \<Rightarrow> None
         | c # a \<Rightarrow> if r \<noteq> [] \<and> c = CHR '':'' \<and> nameRegex a then Some (r, a) else None)"

text \<open>
  Lines 125-140: the three tests run one after the other, each overwriting
  the pair \<open>(resourceName, actionName)\<close> that starts as two empty strings.
\<close>

definition parseAction :: "string \<Rightarrow> string \<times> string" where
  "parseAction originAction =
     (let ra = ('''', '''');
          ra = (if nameRegex originAction then (''__default__'', originAction) else ra);
          ra = (case resourceWildcardRegex originAction of
                  Some r \<Rightarrow> (r, ''__default__'')
                | None \<Rightarrow> ra);
          ra = (case resourceAndActionRegex originAction of
                  Some (r, a) \<Rightarrow> (r, a)
                | None \<Rightarrow> ra)
      in ra)"

fun originAction_of :: "Action \<Rightarrow> string" where
  "originAction_of (ActString s) = s"
| "originAction_of (ActObject a) = name a"

fun saveAction_of :: "Action \<Rightarrow> rule" where
  "saveAction_of (ActString s) = \<lparr>name = s, getMetaData = None, getUserInfo = None\<rparr>"
| "saveAction_of (ActObject a) =
     \<lparr>name = name a, getMetaData = getMetaData a, getUserInfo = getUserInfo a\<rparr>"

definition registerAction :: "Action \<Rightarrow> manager \<Rightarrow> manager" where
  "registerAction act m =
     (let (resourceName, actionName) = parseAction (originAction_of act)
      in if resourceName = [] \<and> actionName = [] then m
         else
           let bucket = (case resources m resourceName of
                           None \<Rightarrow> Map.empty
                         | Some b \<Rightarrow> b)
           in m\<lparr>resources :=
                  (resources m)(resourceName \<mapsto> bucket(actionName \<mapsto> saveAction_of act))\<rparr>)"

text \<open>\<^verbatim>\<open>registerActions\<close>: \<^verbatim>\<open>forEach\<close>, first element first.\<close>

definition registerActions :: "Action list \<Rightarrow> manager \<Rightarrow> manager" where
  "registerActions actions m = fold registerAction actions m"

section \<open>Resolution\<close>

text \<open>
  \<^verbatim>\<open>getAction(action, resource?)\<close> (lines 161-197). \<^verbatim>\<open>!resource\<close> holds for an
  absent and for an empty resource name.
\<close>

definition getAction :: "manager \<Rightarrow> string \<Rightarrow> string option \<Rightarrow> rule option" where
  "getAction m act res =
     (let resourceName = (case res of
                            None \<Rightarrow> ''__default__''
                          | Some r \<Rightarrow> if r = [] then ''__default__'' else r)
      in if resourceName = ''__default__'' then
           (case resources m resourceName of
              Some resourceActions \<Rightarrow> resourceActions act
            | None \<Rightarrow> None)
         else
           (case resources m resourceName of
              Some resourceActions \<Rightarrow>
                (case resourceActions act of
                   Some resourceAction \<Rightarrow> Some resourceAction
                 | None \<Rightarrow> resourceActions ''__default__'')
            | None \<Rightarrow>
                (case resources m ''__default__'' of
                   Some resourceActions \<Rightarrow> resourceActions act
                 | None \<Rightarrow> None)))"

section \<open>Building the audit record\<close>

text \<open>\<^verbatim>\<open>Array.prototype.join(',')\<close> on an array of strings.\<close>

fun join_comma :: "string list \<Rightarrow> string" where
  "join_comma [] = []"
| "join_comma [x] = x"
| "join_comma (x # y # ys) = x @ '','' @ join_comma (y # ys)"

text \<open>
  \<^verbatim>\<open>String.prototype.split('.')\<close>: the segments between the dots, one more
  than there are dots.
\<close>

fun split_dot :: "string \<Rightarrow> string list" where
  "split_dot [] = [] # []"
| "split_dot (c # cs) =
     (if c = CHR ''.'' then [] # split_dot cs
      else (case split_dot cs of
              [] \<Rightarrow> [c] # []
            | seg # segs \<Rightarrow> (c # seg) # segs))"

text \<open>
  \<^verbatim>\<open>formatResourceUk\<close> (lines 251-264): two assignments in sequence, the
  second one after the first.
\<close>

definition formatResourceUk :: "Context \<Rightarrow> jsval" where
  "formatResourceUk ctx =
     (let resourceUk = JStr [];
          resourceUk = (if truthy (ctx_filterByTk ctx) then ctx_filterByTk ctx else resourceUk);
          resourceUk = (case ctx_filterKeys ctx of
                          Some filterKeys \<Rightarrow>
                            if length filterKeys > 0 then JStr (join_comma filterKeys)
                            else resourceUk
                        | None \<Rightarrow> resourceUk)
      in resourceUk)"

text \<open>
  Lines 219-230 of \<^verbatim>\<open>formatAuditData\<close>: the pair \<open>(collection, association)\<close>.
\<close>

definition splitResourceName :: "string option \<Rightarrow> string \<times> string" where
  "splitResourceName resourceName =
     (case resourceName of
        None \<Rightarrow> ([], [])
      | Some rn \<Rightarrow>
          if rn = [] then ([], [])
          else
            let resourceArray = split_dot rn
            in if length resourceArray > 1 then (resourceArray ! 0, resourceArray ! 1)
               else (rn, []))"

text \<open>\<^verbatim>\<open>formatAuditData\<close> (lines 218-249).\<close>

definition formatAuditData :: "Context \<Rightarrow> audit_log" where
  "formatAuditData ctx =
     (let resourceName = ctx_resourceName ctx;
          (coll, assoc) = splitResourceName resourceName;
          resourceUk = formatResourceUk ctx
      in \<lparr>uuid = ctx_reqId ctx,
          dataSource = (case ctx_header_x_data_source ctx of
                          None \<Rightarrow> ''main''
                        | Some d \<Rightarrow> if d = [] then ''main'' else d),
          resource = resourceName,
          collection = coll,
          association = assoc,
          action = ctx_actionName ctx,
          resourceUk = resourceUk,
          userId = ctx_currentUser_id ctx,
          roleName = ctx_currentRole ctx,
          ip = ctx_request_ip ctx,
          ua = ctx_header_user_agent ctx,
          status = ctx_response_status ctx,
          metadata = JNull\<rparr>)"

text \<open>\<^verbatim>\<open>getDefaultMetaData\<close> (lines 199-216).\<close>

definition getDefaultMetaData :: "Context \<Rightarrow> jsobj" where
  "getDefaultMetaData ctx =
     (let body = JNull;
          body = (if truthy (ctx_body ctx) then
                    (if \<not> isBuffer (ctx_body ctx) \<and> \<not> isStream (ctx_body ctx) then ctx_body ctx
                     else body)
                  else body)
      in [(''request'', JObj [(''params'', ctx_request_params ctx),
                              (''query'', ctx_request_query ctx),
                              (''body'', ctx_request_body ctx)]),
          (''response'', JObj [(''body'', body)])])"

section \<open>The interception pipeline\<close>

text \<open>
  What the pipeline does to the outside is a list of events: the downstream
  handler was run, \<^verbatim>\<open>logger.log\<close> was called with a record,
  \<^verbatim>\<open>ctx.log.error\<close> was called with a message, a promise rejected with nobody
  awaiting it.
\<close>

datatype event =
    HandlerRun
  | SinkCall audit_log
  | LogError string
  | UnhandledRejection js_error

fun emitted :: "event list \<Rightarrow> audit_log list" where
  "emitted [] = []"
| "emitted (SinkCall al # evs) = al # emitted evs"
| "emitted (_ # evs) = emitted evs"

text \<open>The messages given to \<^verbatim>\<open>ctx.log.error\<close>, and the rejections nobody handles.\<close>

fun reported :: "event list \<Rightarrow> string list" where
  "reported [] = []"
| "reported (LogError msg # evs) = msg # reported evs"
| "reported (_ # evs) = reported evs"

fun unhandled :: "event list \<Rightarrow> js_error list" where
  "unhandled [] = []"
| "unhandled (UnhandledRejection err # evs) = err # unhandled evs"
| "unhandled (_ # evs) = unhandled evs"

text \<open>
  Lines 277-287 of \<^verbatim>\<open>output\<close>: the user hook. A stored action is always an
  object, so the branch for a string action (lines 295-298) is never taken.
\<close>

definition applyUserInfo :: "rule \<Rightarrow> Context \<Rightarrow> audit_log \<Rightarrow> js_error + audit_log" where
  "applyUserInfo act ctx auditLog =
     (case getUserInfo act of
        None \<Rightarrow> Inr auditLog
      | Some hook \<Rightarrow>
          (case hook ctx of
             Inl err \<Rightarrow> Inl err
           | Inr userInfo \<Rightarrow>
               if truthy userInfo then
                 let auditLog = (if truthy (get_prop userInfo ''id'')
                                 then auditLog\<lparr>userId := get_prop userInfo ''id''\<rparr>
                                 else auditLog);
                     auditLog = (if truthy (get_prop userInfo ''roleName'')
                                 then auditLog\<lparr>roleName := get_prop userInfo ''roleName''\<rparr>
                                 else auditLog)
                 in Inr auditLog
               else Inr auditLog))"

text \<open>Lines 288-294 of \<^verbatim>\<open>output\<close>: the metadata of the record.\<close>

definition applyMetaData ::
    "rule \<Rightarrow> Context \<Rightarrow> jsobj \<Rightarrow> audit_log \<Rightarrow> js_error + audit_log" where
  "applyMetaData act ctx md auditLog =
     (case getMetaData act of
        Some hook \<Rightarrow>
          (case hook ctx of
             Inl err \<Rightarrow> Inl err
           | Inr extra \<Rightarrow> Inr (auditLog\<lparr>metadata := JObj (spread2 md extra)\<rparr>))
      | None \<Rightarrow> Inr (auditLog\<lparr>metadata := JObj (spread2 md (getDefaultMetaData ctx))\<rparr>))"

text \<open>
  Lines 273-275 of \<^verbatim>\<open>output\<close>: the record of \<^verbatim>\<open>formatAuditData\<close>, with its
  \<open>uuid\<close> and its \<open>status\<close> overwritten by the arguments of \<^verbatim>\<open>output\<close>.
\<close>

definition newAuditLog :: "Context \<Rightarrow> string \<Rightarrow> int \<Rightarrow> audit_log" where
  "newAuditLog ctx reqId st = (formatAuditData ctx)\<lparr>uuid := reqId, status := st\<rparr>"

text \<open>
  Calling \<^verbatim>\<open>this.logger.log\<close> with no logger set is a \<^verbatim>\<open>TypeError\<close>; its
  message is the engine's own.
\<close>

definition no_logger_error :: js_error where
  "no_logger_error = Error ''Cannot read properties of undefined''"

text \<open>
  The \<^verbatim>\<open>try\<close> block of \<^verbatim>\<open>output\<close> (lines 268-299): the events it causes and
  the error it ends with, if any. The promise returned by \<^verbatim>\<open>log\<close> is not
  awaited: when it rejects, the block has already ended normally.
\<close>

definition output_try ::
    "manager \<Rightarrow> Context \<Rightarrow> string \<Rightarrow> int \<Rightarrow> jsobj \<Rightarrow> event list \<times> js_error option" where
  "output_try m ctx reqId st md =
     (case getAction m (ctx_actionName ctx) (ctx_resourceName ctx) of
        None \<Rightarrow> ([], None)
      | Some act \<Rightarrow>
          (let auditLog = newAuditLog ctx reqId st
           in case applyUserInfo act ctx auditLog of
                Inl err \<Rightarrow> ([], Some err)
              | Inr auditLog \<Rightarrow>
                  (case applyMetaData act ctx md auditLog of
                     Inl err \<Rightarrow> ([], Some err)
                   | Inr auditLog \<Rightarrow>
                       (case logger m of
                          None \<Rightarrow> ([], Some no_logger_error)
                        | Some lg \<Rightarrow>
                            (case lg auditLog of
                               SinkResolves \<Rightarrow> ([SinkCall auditLog], None)
                             | SinkThrows err \<Rightarrow> ([SinkCall auditLog], Some err)
                             | SinkRejects err \<Rightarrow>
                                 ([SinkCall auditLog, UnhandledRejection err], None))))))"

text \<open>\<^verbatim>\<open>output\<close> (lines 266-303), here \<open>output_audit\<close>: the block and its \<^verbatim>\<open>catch\<close>.\<close>

definition output_audit :: "manager \<Rightarrow> Context \<Rightarrow> string \<Rightarrow> int \<Rightarrow> jsobj \<Rightarrow> event list" where
  "output_audit m ctx reqId st md =
     (case output_try m ctx reqId st md of
        (evs, None) \<Rightarrow> evs
      | (evs, Some err) \<Rightarrow>
          evs @ (if ctx_log ctx then [LogError (''audit output error: '' @ message err)] else []))"

text \<open>
  Lines 308-320 of \<^verbatim>\<open>middleware\<close>: the status and the metadata handed to
  \<^verbatim>\<open>output\<close>, from the context as the handler has left it and the error it
  has thrown, if any.
\<close>

definition outcome :: "Context \<Rightarrow> js_error option \<Rightarrow> int \<times> jsobj" where
  "outcome ctx thrown =
     (case thrown of
        None \<Rightarrow> (1, [])
      | Some err \<Rightarrow>
          (0, [(''status'', JNum (ctx_status ctx)), (''errMsg'', JStr (message err))]))"

text \<open>
  \<^verbatim>\<open>middleware\<close> (lines 305-327). The downstream handler \<open>next\<close> takes the
  context and gives it back as it has left it, with the error it has thrown,
  if any. The result is the context, what the caller of the middleware
  observes (\<open>None\<close>: normal return, \<open>Some err\<close>: \<open>err\<close> thrown), and the events.
  \<^verbatim>\<open>output\<close> is not awaited and catches its own errors, so nothing of it reaches
  the caller.
\<close>

definition middleware ::
    "manager \<Rightarrow> (Context \<Rightarrow> Context \<times> js_error option) \<Rightarrow> Context
       \<Rightarrow> Context \<times> js_error option \<times> event list" where
  "middleware m next ctx =
     (let reqId = ctx_reqId ctx;
          (ctx', thrown) = next ctx;
          (st, md) = outcome ctx' thrown;
          evs = (case logger m of
                   None \<Rightarrow> []
                 | Some _ \<Rightarrow> output_audit m ctx' reqId st md)
      in (ctx', thrown, HandlerRun # evs))"

section \<open>A request and two handlers, for the examples\<close>

definition sample_ctx :: Context where
  "sample_ctx =
     \<lparr>ctx_reqId = ''req-1'', ctx_resourceName = Some ''user'', ctx_actionName = ''create'',
      ctx_filterByTk = JUndefined, ctx_filterKeys = None,
      ctx_request_params = JObj [], ctx_request_query = JObj [],
      ctx_request_body = JObj [(''nickname'', JStr ''ann'')],
      ctx_header_x_data_source = None, ctx_header_user_agent = Some ''curl'',
      ctx_request_ip = ''127.0.0.1'', ctx_currentUser_id = JNum 1,
      ctx_currentRole = JStr ''admin'', ctx_response_status = 200, ctx_status = 200,
      ctx_body = JObj [(''data'', JNum 7)], ctx_log = True\<rparr>"

text \<open>A handler that returns, and one that sets the status 500 and throws.\<close>

definition handler_ok :: "Context \<Rightarrow> Context \<times> js_error option" where
  "handler_ok ctx = (ctx, None)"

definition handler_boom :: "Context \<Rightarrow> Context \<times> js_error option" where
  "handler_boom ctx =
     (ctx\<lparr>ctx_response_status := 500, ctx_status := 500\<rparr>, Some (Error ''boom''))"

text \<open>
  Hooks and sinks: a metadata extractor, one that returns the key
  \<open>errMsg\<close>, a user hook that fails, and sinks that resolve, throw at the call
  and reject later.
\<close>

definition e1 :: "Context \<Rightarrow> js_error + jsobj" where
  "e1 ctx = Inr [(''source'', JStr ''e1'')]"

definition masking_extractor :: "Context \<Rightarrow> js_error + jsobj" where
  "masking_extractor ctx = Inr [(''errMsg'', JStr ''masked'')]"

definition failing_user_hook :: "Context \<Rightarrow> js_error + jsval" where
  "failing_user_hook ctx = Inl (Error ''db down'')"

definition sink_ok :: "audit_log \<Rightarrow> sink_result" where
  "sink_ok al = SinkResolves"

definition sink_throws :: "audit_log \<Rightarrow> sink_result" where
  "sink_throws al = SinkThrows (Error ''sink closed'')"

definition sink_rejects :: "audit_log \<Rightarrow> sink_result" where
  "sink_rejects al = SinkRejects (Error ''write failed'')"

text \<open>A manager with the given registrations, in that order, and the given sink.\<close>

definition manager_of :: "Action list \<Rightarrow> (audit_log \<Rightarrow> sink_result) \<Rightarrow> manager" where
  "manager_of actions sink = setLogger sink (registerActions actions new_manager)"

section \<open>Notions used to state the properties\<close>

text \<open>The rule stored under a resource key and an action key, if any.\<close>

definition entry :: "manager \<Rightarrow> string \<Rightarrow> string \<Rightarrow> rule option" where
  "entry m r k = (case resources m r of None \<Rightarrow> None | Some b \<Rightarrow> b k)"

text \<open>
  A token that does not use the reserved name \<^verbatim>\<open>__default__\<close>, neither as the
  whole token, nor before the colon, nor after it.
\<close>

definition sentinel_free :: "string \<Rightarrow> bool" where
  "sentinel_free t =
     (t \<noteq> ''__default__'' \<and> \<not> prefix ''__default__:'' t \<and> \<not> suffix '':__default__'' t)"

text \<open>
  A token that names the resource \<open>r\<close>: \<open>r\<close> is a name, and the token is
  the wildcard \<^verbatim>\<open>r:*\<close> or a token \<^verbatim>\<open>r:x\<close> for a name \<open>x\<close>.
\<close>

definition names_resource :: "string \<Rightarrow> string \<Rightarrow> bool" where
  "names_resource r t =
     (nameRegex r \<and>
      (t = r @ '':*'' \<or> (prefix (r @ '':'') t \<and> nameRegex (drop (length r + 1) t))))"

text \<open>
  The specificity order in the words of the specification, on the list of
  registered tokens alone, for a query \<open>(r, a)\<close>: the exact token \<^verbatim>\<open>r:a\<close>; else
  the wildcard \<^verbatim>\<open>r:*\<close>; else nothing when some token names the resource \<open>r\<close>
  (the resource has a bucket); else the bare token \<open>a\<close>; else nothing. Only
  names make tokens of the grammar, and an absent resource is the empty
  string.
\<close>

definition spec_resolve :: "string list \<Rightarrow> string \<Rightarrow> string \<Rightarrow> string option" where
  "spec_resolve tokens r a =
     (if nameRegex r \<and> nameRegex a \<and> r @ '':'' @ a \<in> set tokens then Some (r @ '':'' @ a)
      else if nameRegex r \<and> r @ '':*'' \<in> set tokens then Some (r @ '':*'')
      else if (\<exists>t\<in>set tokens. names_resource r t) then None
      else if nameRegex a \<and> a \<in> set tokens then Some a
      else None)"

section \<open>Parsing of tokens\<close>

lemma not_nameChar_colon: "\<not> nameChar CHR '':''"
  by (simp add: nameChar_def)

lemma not_nameChar_star: "\<not> nameChar CHR ''*''"
  by (simp add: nameChar_def)

lemma takeWhile_name: "list_all nameChar r \<Longrightarrow> takeWhile nameChar (r @ CHR '':'' # x) = r"
  by (induction r) (auto simp: not_nameChar_colon)

lemma dropWhile_name: "list_all nameChar r \<Longrightarrow> dropWhile nameChar (r @ CHR '':'' # x) = CHR '':'' # x"
  by (induction r) (auto simp: not_nameChar_colon)

lemma takeWhile_all: "list_all nameChar r \<Longrightarrow> takeWhile nameChar r = r"
  by (induction r) auto

lemma dropWhile_all: "list_all nameChar r \<Longrightarrow> dropWhile nameChar r = []"
  by (induction r) auto

lemma nameRegex_no_colon: "nameRegex a \<Longrightarrow> CHR '':'' \<notin> set a"
  by (auto simp: nameRegex_def list_all_iff not_nameChar_colon)

lemma nameRegex_no_star: "nameRegex a \<Longrightarrow> CHR ''*'' \<notin> set a"
  by (auto simp: nameRegex_def list_all_iff not_nameChar_star)

lemma parseAction_bare: "nameRegex s \<Longrightarrow> parseAction s = (''__default__'', s)"
  by (simp add: parseAction_def resourceWildcardRegex_def resourceAndActionRegex_def
      nameRegex_def dropWhile_all)

lemma parseAction_wildcard:
  "nameRegex r \<Longrightarrow> parseAction (r @ '':*'') = (r, ''__default__'')"
  by (simp add: parseAction_def resourceWildcardRegex_def resourceAndActionRegex_def
      nameRegex_def takeWhile_name dropWhile_name not_nameChar_star)

lemma parseAction_qualified:
  "nameRegex r \<Longrightarrow> nameRegex a \<Longrightarrow> parseAction (r @ CHR '':'' # a) = (r, a)"
  by (simp add: parseAction_def resourceWildcardRegex_def resourceAndActionRegex_def
      nameRegex_def takeWhile_name dropWhile_name not_nameChar_star)

lemma split_take_drop: "s = takeWhile nameChar s @ dropWhile nameChar s"
  by simp

lemma parseAction_cases:
  assumes "parseAction t = (r, k)" and "(r, k) \<noteq> ([], [])"
  shows "(nameRegex t \<and> r = ''__default__'' \<and> k = t)
       \<or> (nameRegex r \<and> k = ''__default__'' \<and> t = r @ '':*'')
       \<or> (nameRegex r \<and> nameRegex k \<and> t = r @ CHR '':'' # k)"
proof (cases "resourceAndActionRegex t")
  case (Some p)
  then obtain r' a' where p: "p = (r', a')" by (cases p)
  from Some p have d: "dropWhile nameChar t = CHR '':'' # a'" and n: "nameRegex a'"
    and r': "r' = takeWhile nameChar t" and ne: "takeWhile nameChar t \<noteq> []"
    by (auto simp: resourceAndActionRegex_def Let_def split: list.splits if_splits)
  have "t = r' @ CHR '':'' # a'" using d r' split_take_drop[of t] by simp
  moreover have "nameRegex r'" using r' ne
    by (auto simp: nameRegex_def list_all_iff dest: set_takeWhileD)
  moreover have "(r, k) = (r', a')" using assms(1) Some p by (simp add: parseAction_def)
  ultimately show ?thesis using n by simp
next
  case None
  note noq = None
  show ?thesis
  proof (cases "resourceWildcardRegex t")
    case (Some r')
    then have d: "dropWhile nameChar t = '':*''" and r': "r' = takeWhile nameChar t"
      and ne: "takeWhile nameChar t \<noteq> []"
      by (auto simp: resourceWildcardRegex_def Let_def split: if_splits)
    have "t = r' @ '':*''" using d r' split_take_drop[of t] by simp
    moreover have "nameRegex r'" using r' ne
      by (auto simp: nameRegex_def list_all_iff dest: set_takeWhileD)
    moreover have "(r, k) = (r', ''__default__'')" using assms(1) Some noq
      by (simp add: parseAction_def)
    ultimately show ?thesis by simp
  next
    case None
    then show ?thesis using assms noq by (auto simp: parseAction_def split: if_splits)
  qed
qed

lemma resources_registerAction:
  "resources (registerAction act m) r \<noteq> None \<longleftrightarrow>
     resources m r \<noteq> None \<or>
     (parseAction (originAction_of act) \<noteq> ([], []) \<and> fst (parseAction (originAction_of act)) = r)"
  by (cases "parseAction (originAction_of act)") (auto simp: registerAction_def)

lemma entry_registerAction:
  "entry (registerAction act m) r k =
     (if parseAction (originAction_of act) = (r, k) \<and> (r, k) \<noteq> ([], [])
      then Some (saveAction_of act) else entry m r k)"
  by (cases "parseAction (originAction_of act)")
     (auto simp: registerAction_def entry_def split: option.splits)

lemma resources_registerActions:
  "resources (registerActions acts m) r \<noteq> None \<longleftrightarrow>
     resources m r \<noteq> None \<or>
     (\<exists>act\<in>set acts. parseAction (originAction_of act) \<noteq> ([], []) \<and>
        fst (parseAction (originAction_of act)) = r)"
  unfolding registerActions_def
proof (induction acts arbitrary: m)
  case Nil
  then show ?case by simp
next
  case (Cons act acts)
  show ?case
    unfolding fold_simps Cons.IH resources_registerAction by auto
qed

lemma entry_registerActions_None:
  "entry (registerActions acts m) r k = None \<longleftrightarrow>
     entry m r k = None \<and>
     (\<forall>act\<in>set acts. parseAction (originAction_of act) = (r, k) \<longrightarrow> (r, k) = ([], []))"
  unfolding registerActions_def
proof (induction acts arbitrary: m)
  case Nil
  then show ?case by simp
next
  case (Cons act acts)
  show ?case
    unfolding fold_simps Cons.IH entry_registerAction by auto
qed

lemma entry_registerActions_Some:
  "entry (registerActions acts m) r k = Some x \<Longrightarrow>
     entry m r k = Some x \<or>
     (\<exists>act\<in>set acts. x = saveAction_of act \<and> parseAction (originAction_of act) = (r, k) \<and>
        (r, k) \<noteq> ([], []))"
  unfolding registerActions_def
proof (induction acts arbitrary: m)
  case Nil
  then show ?case by simp
next
  case (Cons act acts)
  from Cons.prems have "entry (fold registerAction acts (registerAction act m)) r k = Some x"
    by simp
  from Cons.IH[OF this] show ?case
    by (auto simp: entry_registerAction split: if_splits)
qed

lemma name_saveAction_of: "name (saveAction_of act) = originAction_of act"
  by (cases act) auto

lemma getAction_entry:
  "getAction m a res =
     (let rn = (case res of None \<Rightarrow> ''__default__'' | Some r \<Rightarrow> if r = [] then ''__default__'' else r)
      in if rn = ''__default__'' then entry m ''__default__'' a
         else if resources m rn = None then entry m ''__default__'' a
         else (case entry m rn a of Some x \<Rightarrow> Some x | None \<Rightarrow> entry m rn ''__default__''))"
  by (auto simp: getAction_def entry_def Let_def split: option.splits)

section \<open>Content of the registry\<close>

lemma sentinel_free_simps:
  "\<not> sentinel_free ''__default__''"
  "\<not> sentinel_free (''__default__'' @ CHR '':'' # x)"
  "\<not> sentinel_free (''__default__'' @ '':*'')"
  "\<not> sentinel_free (y @ CHR '':'' # ''__default__'')"
  by (simp_all add: sentinel_free_def suffix_def)

lemma classify:
  assumes "sentinel_free t" "parseAction t = (r, k)" "(r, k) \<noteq> ([], [])"
  shows "(r = ''__default__'' \<and> k = t \<and> nameRegex t \<and> t \<noteq> ''__default__'')
       \<or> (r \<noteq> ''__default__'' \<and> k = ''__default__'' \<and> t = r @ '':*'' \<and> nameRegex r)
       \<or> (r \<noteq> ''__default__'' \<and> k \<noteq> ''__default__'' \<and> t = r @ CHR '':'' # k
            \<and> nameRegex r \<and> nameRegex k)"
  using parseAction_cases[OF assms(2,3)] assms(1) sentinel_free_simps
  by (elim disjE) auto

lemma resources_new: "resources new_manager r = None"
  by (simp add: new_manager_def)

lemma entry_new: "entry (registerActions acts new_manager) r k = None \<longleftrightarrow>
     (\<forall>act\<in>set acts. parseAction (originAction_of act) = (r, k) \<longrightarrow> (r, k) = ([], []))"
  by (simp add: entry_registerActions_None) (simp add: entry_def new_manager_def)

lemma entry_new_Some:
  assumes "entry (registerActions acts new_manager) r k = Some x"
  shows "name x \<in> originAction_of ` set acts \<and> parseAction (name x) = (r, k) \<and> (r, k) \<noteq> ([], [])"
proof -
  have "entry new_manager r k = None" by (simp add: entry_def new_manager_def)
  with entry_registerActions_Some[OF assms] show ?thesis
    by (auto simp: name_saveAction_of)
qed

lemma bucket_new: "resources (registerActions acts new_manager) r \<noteq> None \<longleftrightarrow>
     (\<exists>act\<in>set acts. parseAction (originAction_of act) \<noteq> ([], []) \<and>
        fst (parseAction (originAction_of act)) = r)"
  using resources_registerActions[of acts new_manager r] by (simp add: resources_new)

lemma nameRegex_nonempty: "nameRegex r \<Longrightarrow> r \<noteq> []"
  by (simp add: nameRegex_def)

lemma global_entry:
  assumes sf: "\<forall>act\<in>set acts. sentinel_free (originAction_of act)"
  shows "map_option name (entry (registerActions acts new_manager) ''__default__'' a) =
           (if nameRegex a \<and> a \<in> originAction_of ` set acts then Some a else None)"
proof (cases "entry (registerActions acts new_manager) ''__default__'' a")
  case None
  have "\<not> (nameRegex a \<and> a \<in> originAction_of ` set acts)"
  proof
    assume h: "nameRegex a \<and> a \<in> originAction_of ` set acts"
    then obtain act where "act \<in> set acts" "originAction_of act = a" by auto
    with None[unfolded entry_new] parseAction_bare[of a] h show False by auto
  qed
  with None show ?thesis by simp
next
  case (Some x)
  from entry_new_Some[OF Some] have m: "name x \<in> originAction_of ` set acts"
    and p: "parseAction (name x) = (''__default__'', a)" by auto
  from m sf have "sentinel_free (name x)" by auto
  from classify[OF this p] have "name x = a" "nameRegex a" by auto
  with m Some show ?thesis by auto
qed

lemma exact_entry:
  assumes sf: "\<forall>act\<in>set acts. sentinel_free (originAction_of act)"
    and r: "nameRegex r" "r \<noteq> ''__default__''" and a: "a \<noteq> ''__default__''"
  shows "map_option name (entry (registerActions acts new_manager) r a) =
           (if nameRegex a \<and> r @ CHR '':'' # a \<in> originAction_of ` set acts
            then Some (r @ CHR '':'' # a) else None)"
proof (cases "entry (registerActions acts new_manager) r a")
  case None
  have "\<not> (nameRegex a \<and> r @ CHR '':'' # a \<in> originAction_of ` set acts)"
  proof
    assume h: "nameRegex a \<and> r @ CHR '':'' # a \<in> originAction_of ` set acts"
    then obtain act where "act \<in> set acts" "originAction_of act = r @ CHR '':'' # a" by auto
    with None[unfolded entry_new] parseAction_qualified[OF r(1), of a] h
      nameRegex_nonempty[OF r(1)]
    show False by auto
  qed
  with None show ?thesis by simp
next
  case (Some x)
  from entry_new_Some[OF Some] have m: "name x \<in> originAction_of ` set acts"
    and p: "parseAction (name x) = (r, a)" and ne: "(r, a) \<noteq> ([], [])" by auto
  from m sf have "sentinel_free (name x)" by auto
  from classify[OF this p ne] r a have "name x = r @ CHR '':'' # a" "nameRegex a" by auto
  with m Some show ?thesis by auto
qed

lemma wildcard_entry:
  assumes sf: "\<forall>act\<in>set acts. sentinel_free (originAction_of act)"
    and r: "nameRegex r" "r \<noteq> ''__default__''"
  shows "map_option name (entry (registerActions acts new_manager) r ''__default__'') =
           (if r @ '':*'' \<in> originAction_of ` set acts then Some (r @ '':*'') else None)"
proof (cases "entry (registerActions acts new_manager) r ''__default__''")
  case None
  have "r @ '':*'' \<notin> originAction_of ` set acts"
  proof
    assume "r @ '':*'' \<in> originAction_of ` set acts"
    then obtain act where "act \<in> set acts" "originAction_of act = r @ '':*''" by auto
    with None[unfolded entry_new] parseAction_wildcard[OF r(1)] show False by auto
  qed
  with None show ?thesis by simp
next
  case (Some x)
  from entry_new_Some[OF Some] have m: "name x \<in> originAction_of ` set acts"
    and p: "parseAction (name x) = (r, ''__default__'')" by auto
  from m sf have "sentinel_free (name x)" by auto
  from classify[OF this p] r have "name x = r @ '':*''" by auto
  with m Some show ?thesis by auto
qed

lemma names_resource_parse:
  assumes "names_resource r t"
  shows "parseAction t \<noteq> ([], []) \<and> fst (parseAction t) = r"
proof -
  from assms have r: "nameRegex r" by (simp add: names_resource_def)
  from assms consider "t = r @ '':*''" | x where "t = r @ CHR '':'' # x" "nameRegex x"
    by (auto simp: names_resource_def prefix_def)
  then show ?thesis
  proof cases
    case 1
    then show ?thesis using parseAction_wildcard[OF r] nameRegex_nonempty[OF r] by simp
  next
    case 2
    then show ?thesis using parseAction_qualified[OF r 2(2)] nameRegex_nonempty[OF r] by simp
  qed
qed

lemma bucket_exists:
  assumes sf: "\<forall>act\<in>set acts. sentinel_free (originAction_of act)"
    and r: "r \<noteq> ''__default__''"
  shows "resources (registerActions acts new_manager) r \<noteq> None \<longleftrightarrow>
           (\<exists>t\<in>originAction_of ` set acts. names_resource r t)"
proof
  assume "resources (registerActions acts new_manager) r \<noteq> None"
  then obtain act k where act: "act \<in> set acts"
    and p: "parseAction (originAction_of act) = (r, k)" "(r, k) \<noteq> ([], [])"
    unfolding bucket_new by (metis prod.collapse)
  from act sf have "sentinel_free (originAction_of act)" by auto
  from classify[OF this p] r have "names_resource r (originAction_of act)"
    by (auto simp: names_resource_def)
  with act show "\<exists>t\<in>originAction_of ` set acts. names_resource r t" by auto
next
  assume "\<exists>t\<in>originAction_of ` set acts. names_resource r t"
  then obtain act where "act \<in> set acts" "names_resource r (originAction_of act)" by auto
  with names_resource_parse show "resources (registerActions acts new_manager) r \<noteq> None"
    unfolding bucket_new by blast
qed

lemma names_resource_wildcard: "nameRegex r \<Longrightarrow> names_resource r (r @ '':*'')"
  by (simp add: names_resource_def)

lemma names_resource_qualified:
  "nameRegex r \<Longrightarrow> nameRegex a \<Longrightarrow> names_resource r (r @ '':'' @ a)"
  by (simp add: names_resource_def)

lemma not_names_resource_sentinel:
  "sentinel_free t \<Longrightarrow> \<not> names_resource ''__default__'' t"
  by (auto simp: names_resource_def sentinel_free_def)

section \<open>Specificity of the resolution\<close>

lemma parseAction_examples:
  "parseAction ''user:create'' = (''user'', ''create'')"
  "parseAction ''user:*'' = (''user'', ''__default__'')"
  "parseAction ''create'' = (''__default__'', ''create'')"
  "parseAction ''user:__default__'' = (''user'', ''__default__'')"
  by (simp_all add: parseAction_def resourceWildcardRegex_def resourceAndActionRegex_def nameRegex_def nameChar_def)

text \<open>
  Claim C1, as amended. Let the registered tokens not use the reserved name
  \<^verbatim>\<open>__default__\<close>. Then, in whatever order the actions were registered, and
  for every query, resolving \<open>(r, a)\<close> returns the rule of the exact token
  \<^verbatim>\<open>r:a\<close> when it is registered; else the rule of the wildcard \<^verbatim>\<open>r:*\<close> when it
  is registered; else nothing when some token names the resource \<open>r\<close> (the
  resource has a bucket), without falling through to the bare actions; else
  the rule of the bare token \<open>a\<close> when it is registered; else nothing.
\<close>

theorem resolution_specificity:
  assumes perm: "mset acts' = mset acts"
    and sf: "\<forall>act\<in>set acts. sentinel_free (originAction_of act)"
  shows "map_option name (getAction (registerActions acts' new_manager) a res) =
           spec_resolve (map originAction_of acts) (case res of None \<Rightarrow> [] | Some r \<Rightarrow> r) a"
proof -
  define r where "r = (case res of None \<Rightarrow> [] | Some r \<Rightarrow> r)"
  have set_eq: "set acts' = set acts" using perm by (rule mset_eq_setD)
  have sf': "\<forall>act\<in>set acts'. sentinel_free (originAction_of act)" using sf set_eq by simp
  let ?M = "registerActions acts' new_manager"
  let ?T = "originAction_of ` set acts"
  have T: "set (map originAction_of acts) = ?T" by simp
  have glob: "map_option name (entry ?M ''__default__'' a) =
                (if nameRegex a \<and> a \<in> ?T then Some a else None)"
    using global_entry[OF sf'] set_eq by simp
  have tsf: "\<And>t. t \<in> ?T \<Longrightarrow> sentinel_free t" using sf by auto
  have ga0: "getAction ?M a res =
     (if r = [] \<or> r = ''__default__'' then entry ?M ''__default__'' a
      else if resources ?M r = None then entry ?M ''__default__'' a
      else (case entry ?M r a of Some x \<Rightarrow> Some x | None \<Rightarrow> entry ?M r ''__default__''))"
    by (auto simp: getAction_entry r_def Let_def split: option.splits)
  have goal: "map_option name (getAction ?M a res) = spec_resolve (map originAction_of acts) r a"
  proof (cases "r = [] \<or> r = ''__default__''")
    case True
    have n1: "\<not> (nameRegex r \<and> nameRegex a \<and> r @ '':'' @ a \<in> ?T)"
      using tsf sentinel_free_simps(2)[of a] True nameRegex_nonempty[of r] by auto
    have n2: "\<not> (nameRegex r \<and> r @ '':*'' \<in> ?T)"
      using tsf sentinel_free_simps(3) True nameRegex_nonempty[of r] by auto
    have n3: "\<not> (\<exists>t\<in>?T. names_resource r t)"
      using tsf not_names_resource_sentinel True nameRegex_nonempty[of r]
      by (auto simp: names_resource_def)
    have "getAction ?M a res = entry ?M ''__default__'' a" using True ga0 by simp
    then show ?thesis using glob n1 n2 n3 unfolding spec_resolve_def T by auto
  next
    case False
    then have rne: "r \<noteq> []" and rns: "r \<noteq> ''__default__''" by auto
    have buck: "resources ?M r \<noteq> None \<longleftrightarrow> (\<exists>t\<in>?T. names_resource r t)"
      using bucket_exists[OF sf' rns] set_eq by simp
    have ga: "getAction ?M a res =
                (if resources ?M r = None then entry ?M ''__default__'' a
                 else (case entry ?M r a of Some x \<Rightarrow> Some x
                       | None \<Rightarrow> entry ?M r ''__default__''))"
      using False ga0 by simp
    show ?thesis
    proof (cases "resources ?M r = None")
      case True
      with buck have nb: "\<not> (\<exists>t\<in>?T. names_resource r t)" by simp
      have "\<not> (nameRegex r \<and> nameRegex a \<and> r @ '':'' @ a \<in> ?T)"
        "\<not> (nameRegex r \<and> r @ '':*'' \<in> ?T)"
        using nb names_resource_wildcard[of r] names_resource_qualified[of r a] by blast+
      with nb glob ga True show ?thesis unfolding spec_resolve_def T by auto
    next
      case nonempty: False
      with buck have b: "\<exists>t\<in>?T. names_resource r t" by simp
      then have rn: "nameRegex r" by (auto simp: names_resource_def)
      have wild: "map_option name (entry ?M r ''__default__'') =
                    (if r @ '':*'' \<in> ?T then Some (r @ '':*'') else None)"
        using wildcard_entry[OF sf' rn rns] set_eq by simp
      show ?thesis
      proof (cases "a = ''__default__''")
        case True
        have n1: "r @ '':'' @ a \<notin> ?T" using tsf sentinel_free_simps(4)[of r] True by auto
        have "getAction ?M a res = entry ?M r ''__default__''"
          using ga nonempty True by (simp split: option.splits)
        with wild n1 b rn show ?thesis unfolding spec_resolve_def T by simp
      next
        case False
        have ex: "map_option name (entry ?M r a) =
                    (if nameRegex a \<and> r @ '':'' @ a \<in> ?T then Some (r @ '':'' @ a) else None)"
          using exact_entry[OF sf' rn rns False] set_eq by simp
        show ?thesis
        proof (cases "entry ?M r a")
          case None
          with ex have n1: "\<not> (nameRegex a \<and> r @ '':'' @ a \<in> ?T)" by (simp split: if_splits)
          have "getAction ?M a res = entry ?M r ''__default__''"
            using ga nonempty None by simp
          with wild n1 b rn show ?thesis unfolding spec_resolve_def T by auto
        next
          case (Some x)
          with ex have "nameRegex a \<and> r @ '':'' @ a \<in> ?T" "name x = r @ '':'' @ a"
            by (auto split: if_splits)
          moreover have "getAction ?M a res = Some x" using ga nonempty Some by simp
          ultimately show ?thesis using rn unfolding spec_resolve_def T by simp
        qed
      qed
    qed
  qed
  then show ?thesis by (simp add: r_def)
qed

text \<open>
  The theorem at three overlapping registrations, registered in another
  order than the one the specification is read on.
\<close>

theorem resolution_specificity_witness:
  "map_option name (getAction (registerActions
       [ActString ''user:create'', ActString ''create'', ActString ''user:*''] new_manager)
       ''create'' (Some ''user'')) = Some ''user:create''"
proof -
  have p: "mset [ActString ''user:create'', ActString ''create'', ActString ''user:*'']
         = mset [ActString ''create'', ActString ''user:*'', ActString ''user:create'']"
    by simp
  have sf: "\<forall>act\<in>set [ActString ''create'', ActString ''user:*'', ActString ''user:create''].
              sentinel_free (originAction_of act)"
    by (simp add: sentinel_free_def suffix_to_prefix)
  have r: "nameRegex ''user''" by (simp add: nameRegex_def nameChar_def)
  have a: "nameRegex ''create''" by (simp add: nameRegex_def nameChar_def)
  show ?thesis
    using resolution_specificity[OF p sf, of "''create''" "Some ''user''"] r a
    by (simp add: spec_resolve_def)
qed

text \<open>
  Claim C1 as stated fails on the reserved name: \<^verbatim>\<open>user:__default__\<close> and
  \<^verbatim>\<open>user:*\<close> are stored under the same keys, so for the query
  \<open>(user, __default__)\<close> the exact registration wins in one order of
  registration and the wildcard in the other.
\<close>

theorem specificity_counterexample:
  "map_option name (getAction (registerActions
       [ActString ''user:__default__'', ActString ''user:*''] new_manager)
       ''__default__'' (Some ''user'')) = Some ''user:*''
   \<and> map_option name (getAction (registerActions
       [ActString ''user:*'', ActString ''user:__default__''] new_manager)
       ''__default__'' (Some ''user'')) = Some ''user:__default__''"
  by (simp add: registerActions_def registerAction_def parseAction_examples getAction_def new_manager_def)

section \<open>The reserved name as a resource\<close>

text \<open>
  Claim C10. A token \<^verbatim>\<open>__default__:a\<close>, for a name \<open>a\<close>, is parsed to the same
  resource key and action key as the bare token \<open>a\<close>: its rule is stored in
  the bucket of the bare actions, under \<open>a\<close>, and is found by resolving \<open>a\<close>
  with no resource. Resolving with the resource name \<^verbatim>\<open>__default__\<close> is the
  same as resolving with no resource: the entry of that bucket under the
  action name, with no wildcard fallback.
\<close>

theorem sentinel_bucket_addressable:
  assumes "nameRegex a" and "originAction_of act = ''__default__:'' @ a"
  shows "parseAction (originAction_of act) = parseAction a
       \<and> entry (registerAction act m) ''__default__'' a = Some (saveAction_of act)
       \<and> getAction (registerAction act m) a None = Some (saveAction_of act)
       \<and> getAction m' q (Some ''__default__'') = getAction m' q None
       \<and> getAction m' q None = entry m' ''__default__'' q"
proof -
  have d: "nameRegex ''__default__''" by (simp add: nameRegex_def nameChar_def)
  have p: "parseAction (originAction_of act) = (''__default__'', a)"
    using parseAction_qualified[OF d assms(1)] assms(2) by simp
  have e: "entry (registerAction act m) ''__default__'' a = Some (saveAction_of act)"
    by (simp add: entry_registerAction p)
  show ?thesis
    using p e parseAction_bare[OF assms(1)] by (simp add: getAction_entry)
qed

text \<open>The theorem at the token \<^verbatim>\<open>__default__:foo\<close>.\<close>

theorem sentinel_bucket_addressable_witness:
  "getAction (registerAction (ActString ''__default__:foo'') new_manager) ''foo'' None
     = Some \<lparr>name = ''__default__:foo'', getMetaData = None, getUserInfo = None\<rparr>
   \<and> parseAction ''__default__:foo'' = parseAction ''foo''"
proof -
  have n: "nameRegex ''foo''" by (simp add: nameRegex_def nameChar_def)
  have o: "originAction_of (ActString ''__default__:foo'') = ''__default__:'' @ ''foo''" by simp
  show ?thesis
    using sentinel_bucket_addressable[OF n o, of new_manager] by simp
qed

section \<open>The subject key\<close>

text \<open>
  Claim C6, as amended. The subject key favours the key list: when the
  key list is present and not empty, the key is the list joined by commas,
  whatever the single-record token is; otherwise it is the single-record
  token when that one is truthy; otherwise it is the empty string.
\<close>

theorem formatResourceUk_key_list_first:
  "formatResourceUk ctx =
     (case ctx_filterKeys ctx of
        Some (k # ks) \<Rightarrow> JStr (join_comma (k # ks))
      | _ \<Rightarrow> if truthy (ctx_filterByTk ctx) then ctx_filterByTk ctx else JStr [])"
  by (simp add: formatResourceUk_def split: option.splits list.splits)

text \<open>
  Claim C6 as stated fails when both are present: the token \<open>7\<close> and the
  key list \<open>[a, b]\<close> give the subject key \<open>a,b\<close>, not \<open>7\<close>.
\<close>

theorem formatResourceUk_counterexample:
  "formatResourceUk (sample_ctx\<lparr>ctx_filterByTk := JStr ''7'', ctx_filterKeys := Some [''a'', ''b'']\<rparr>)
     = JStr ''a,b''"
  by (simp add: formatResourceUk_def sample_ctx_def)

section \<open>The default metadata\<close>

text \<open>
  Claim C7, as amended. The response part of the default metadata always has
  the field \<open>body\<close>: it holds the response body when that one is truthy and
  neither a buffer nor a stream, and \<open>null\<close> otherwise.
\<close>

theorem default_response_body:
  "map_of (getDefaultMetaData ctx) ''response'' =
     Some (JObj [(''body'',
        if truthy (ctx_body ctx) \<and> \<not> isBuffer (ctx_body ctx) \<and> \<not> isStream (ctx_body ctx)
        then ctx_body ctx else JNull)])"
  by (simp add: getDefaultMetaData_def)

text \<open>
  Claim C7 as stated fails twice: for a buffer the field is not omitted, it
  is there with the value \<open>null\<close>; and the empty string, a plain body, is not
  embedded as it is, but as \<open>null\<close>.
\<close>

theorem default_response_body_counterexample:
  "map_of (getDefaultMetaData (sample_ctx\<lparr>ctx_body := JBuffer [104, 105]\<rparr>)) ''response''
     = Some (JObj [(''body'', JNull)])
   \<and> map_of (getDefaultMetaData (sample_ctx\<lparr>ctx_body := JStr []\<rparr>)) ''response''
     = Some (JObj [(''body'', JNull)])"
  by (simp add: getDefaultMetaData_def sample_ctx_def)

section \<open>Collection and association\<close>

lemma split_dot_unfold:
  "split_dot s = takeWhile (\<lambda>c. c \<noteq> CHR ''.'') s #
     (if CHR ''.'' \<in> set s then split_dot (tl (dropWhile (\<lambda>c. c \<noteq> CHR ''.'') s)) else [])"
  by (induction s) auto

lemma split_dot_second:
  "CHR ''.'' \<in> set s \<Longrightarrow>
     split_dot s ! Suc 0 = takeWhile (\<lambda>c. c \<noteq> CHR ''.'') (tl (dropWhile (\<lambda>c. c \<noteq> CHR ''.'') s))"
  by (subst split_dot_unfold, simp, subst split_dot_unfold, simp)

lemma split_dot_length: "Suc 0 < length (split_dot s) \<longleftrightarrow> CHR ''.'' \<in> set s"
  by (subst split_dot_unfold, simp, subst split_dot_unfold, simp)

lemma split_dot_first: "split_dot s ! 0 = takeWhile (\<lambda>c. c \<noteq> CHR ''.'') s"
  by (subst split_dot_unfold) simp

lemma takeWhile_no_dot: "CHR ''.'' \<notin> set s \<Longrightarrow> takeWhile (\<lambda>c. c \<noteq> CHR ''.'') s = s"
  by (induction s) auto

text \<open>
  Claim C9, as amended. The collection is the part of the resource name
  before its first dot (the whole name when it has none); the association is
  the part between the first dot and the second (up to the end when there is
  no second dot), and empty when the name has no dot.
\<close>

theorem collection_association_split:
  assumes "ctx_resourceName ctx = Some rn"
  shows "collection (formatAuditData ctx) = takeWhile (\<lambda>c. c \<noteq> CHR ''.'') rn
       \<and> association (formatAuditData ctx) =
           (if CHR ''.'' \<in> set rn
            then takeWhile (\<lambda>c. c \<noteq> CHR ''.'') (tl (dropWhile (\<lambda>c. c \<noteq> CHR ''.'') rn))
            else [])"
proof (cases "CHR ''.'' \<in> set rn")
  case True
  then have "rn \<noteq> []" by auto
  with True assms show ?thesis
    by (simp add: formatAuditData_def splitResourceName_def Let_def split_dot_length
        split_dot_first split_dot_second)
next
  case False
  with assms show ?thesis
    by (simp add: formatAuditData_def splitResourceName_def Let_def split_dot_length
        takeWhile_no_dot)
qed

text \<open>The theorem at the resource name \<^verbatim>\<open>posts.comments\<close>.\<close>

theorem collection_association_split_witness:
  "collection (formatAuditData (sample_ctx\<lparr>ctx_resourceName := Some ''posts.comments''\<rparr>)) = ''posts''
   \<and> association (formatAuditData (sample_ctx\<lparr>ctx_resourceName := Some ''posts.comments''\<rparr>)) = ''comments''"
proof -
  have "ctx_resourceName (sample_ctx\<lparr>ctx_resourceName := Some ''posts.comments''\<rparr>) = Some ''posts.comments''"
    by simp
  from collection_association_split[OF this] show ?thesis by simp
qed

text \<open>
  Claim C9 as stated fails on a name with two dots: for \<^verbatim>\<open>a.b.c\<close> the
  association is \<open>b\<close>, not the remainder \<open>b.c\<close> after the first dot.
\<close>

theorem collection_association_counterexample:
  "collection (formatAuditData (sample_ctx\<lparr>ctx_resourceName := Some ''a.b.c''\<rparr>)) = ''a''
   \<and> association (formatAuditData (sample_ctx\<lparr>ctx_resourceName := Some ''a.b.c''\<rparr>)) = ''b''"
  by (simp add: formatAuditData_def splitResourceName_def Let_def)

section \<open>Object spread\<close>

lemma map_of_obj_set: "map_of (obj_set k v ob) = (map_of ob)(k \<mapsto> v)"
  by (induction ob) (auto simp: fun_eq_iff)

lemma map_of_obj_assign: "map_of (obj_assign target src) = map_of target ++ map_of (rev src)"
proof (induction src arbitrary: target)
  case Nil
  then show ?case by (simp add: obj_assign_def)
next
  case (Cons kv src)
  have "map_of (obj_assign target (kv # src)) =
          map_of (obj_assign (obj_set (fst kv) (snd kv) target) src)"
    by (simp add: obj_assign_def)
  also have "\<dots> = (map_of target)(fst kv \<mapsto> snd kv) ++ map_of (rev src)"
    by (simp only: Cons.IH map_of_obj_set)
  also have "\<dots> = map_of target ++ map_of (rev (kv # src))"
    by (cases kv) (simp add: map_add_upd_left fun_eq_iff map_add_def split: option.splits)
  finally show ?case .
qed

lemma map_of_spread2: "map_of (spread2 a b) = map_of (rev a) ++ map_of (rev b)"
  by (simp add: spread2_def map_of_obj_assign)

lemma map_of_rev_distinct:
  "distinct (map fst kvs) \<Longrightarrow> map_of (rev kvs) = map_of kvs"
  by (rule map_of_inject_set[THEN iffD2]) (simp_all add: distinct_rev rev_map[symmetric])

lemma get_prop_spread2_right:
  assumes "distinct (map fst b)" "(k, v) \<in> set b"
  shows "get_prop (JObj (spread2 a b)) k = v"
  using assms by (simp add: map_of_spread2 map_of_rev_distinct map_add_def)

lemma get_prop_spread2_left:
  assumes "distinct (map fst a)" "(k, v) \<in> set a" "k \<notin> fst ` set b"
  shows "get_prop (JObj (spread2 a b)) k = v"
proof -
  have "map_of (rev b) k = None" using assms(3) by (simp add: map_of_eq_None_iff)
  then show ?thesis using assms(1,2)
    by (simp add: map_of_spread2 map_of_rev_distinct map_add_def)
qed

lemma get_prop_spread2_none:
  assumes "k \<notin> fst ` set a" "k \<notin> fst ` set b"
  shows "get_prop (JObj (spread2 a b)) k = JUndefined"
proof -
  have "map_of (rev b) k = None" "map_of (rev a) k = None"
    using assms by (simp_all add: map_of_eq_None_iff)
  then show ?thesis by (simp add: map_of_spread2 map_add_def)
qed

lemma spread2_empty_default: "spread2 [] (getDefaultMetaData ctx) = getDefaultMetaData ctx"
  by (simp add: spread2_def obj_assign_def getDefaultMetaData_def Let_def)

section \<open>The pipeline\<close>

lemma applyMetaData_Inr:
  assumes "applyMetaData act ctx md a1 = Inr al"
  shows "case getMetaData act of
           Some hook \<Rightarrow> (\<exists>extra. hook ctx = Inr extra \<and> metadata al = JObj (spread2 md extra))
         | None \<Rightarrow> metadata al = JObj (spread2 md (getDefaultMetaData ctx))"
  using assms by (auto simp: applyMetaData_def split: option.splits sum.splits)

lemma output_try_events:
  assumes "SinkCall al \<in> set (fst (output_try m ctx reqId st md))"
  shows "\<exists>act a1. getAction m (ctx_actionName ctx) (ctx_resourceName ctx) = Some act \<and>
           applyUserInfo act ctx (newAuditLog ctx reqId st) = Inr a1 \<and>
           applyMetaData act ctx md a1 = Inr al"
  using assms
  by (auto simp: output_try_def Let_def split: option.splits sum.splits sink_result.splits)

lemma output_audit_events:
  "SinkCall al \<in> set (output_audit m ctx reqId st md) \<longleftrightarrow>
     SinkCall al \<in> set (fst (output_try m ctx reqId st md))"
  by (cases "output_try m ctx reqId st md") (auto simp: output_audit_def split: option.splits)

text \<open>
  Claim C5. Whenever \<^verbatim>\<open>output\<close> hands a record to the sink, a rule was
  matched and the metadata of the record is one of two merges. If the rule
  has a metadata extractor, it is the caller's metadata with the extractor's
  output spread over it: every field of the extractor's output is in it with
  the extractor's value, and a key of neither is absent from it, so that the
  default metadata takes no part. If the rule has no extractor, it is the
  caller's metadata with the default metadata spread over it.
\<close>

theorem metadata_merge:
  assumes "SinkCall al \<in> set (output_audit m ctx reqId st md)"
  shows "\<exists>act. getAction m (ctx_actionName ctx) (ctx_resourceName ctx) = Some act \<and>
     (case getMetaData act of
        Some hook \<Rightarrow>
          (\<exists>extra. hook ctx = Inr extra \<and> metadata al = JObj (spread2 md extra) \<and>
             (\<forall>k v. distinct (map fst extra) \<and> (k, v) \<in> set extra \<longrightarrow>
                get_prop (metadata al) k = v) \<and>
             (\<forall>k. k \<notin> fst ` set md \<and> k \<notin> fst ` set extra \<longrightarrow>
                get_prop (metadata al) k = JUndefined))
      | None \<Rightarrow> metadata al = JObj (spread2 md (getDefaultMetaData ctx)))"
proof -
  from assms obtain act a1 where
    act: "getAction m (ctx_actionName ctx) (ctx_resourceName ctx) = Some act"
    and md: "applyMetaData act ctx md a1 = Inr al"
    using output_try_events unfolding output_audit_events by blast
  show ?thesis
  proof (cases "getMetaData act")
    case None
    with applyMetaData_Inr[OF md] act show ?thesis by simp
  next
    case (Some hook)
    with applyMetaData_Inr[OF md] obtain extra where
      e: "hook ctx = Inr extra" "metadata al = JObj (spread2 md extra)" by auto
    then show ?thesis using act Some
      by (auto simp: get_prop_spread2_right get_prop_spread2_none simp del: get_prop.simps)
  qed
qed

text \<open>
  Claim C8. When no sink is configured, or when the resource and action of
  the request match no rule, the middleware runs the downstream handler once
  and does nothing else: no record is handed to a sink, nothing is logged,
  and the caller gets the context and the outcome (normal return, or the
  error thrown) of the handler.
\<close>

theorem unmatched_or_no_sink:
  assumes "logger m = None \<or>
           getAction m (ctx_actionName (fst (next ctx))) (ctx_resourceName (fst (next ctx))) = None"
  shows "middleware m next ctx = (fst (next ctx), snd (next ctx), [HandlerRun])"
  using assms
  by (auto simp: middleware_def output_audit_def output_try_def Let_def
      split: prod.splits option.splits)

lemma emitted_append: "emitted (xs @ ys) = emitted xs @ emitted ys"
  by (induction xs rule: emitted.induct) auto

lemma emitted_output_audit:
  "emitted (output_audit m c r st md) = emitted (fst (output_try m c r st md))"
  by (cases "output_try m c r st md") (auto simp: output_audit_def emitted_append split: option.splits)

lemma emitted_output_try:
  assumes "getAction m (ctx_actionName c) (ctx_resourceName c) = Some act"
    and "applyUserInfo act c (newAuditLog c r st) = Inr a1"
    and "applyMetaData act c md a1 = Inr a2"
    and "logger m = Some lg"
  shows "emitted (fst (output_try m c r st md)) = [a2]"
  using assms by (simp add: output_try_def split: sink_result.splits)

lemma applyUserInfo_ok:
  assumes "getUserInfo act = None \<or> (\<exists>hook u. getUserInfo act = Some hook \<and> hook c = Inr u)"
  shows "\<exists>a1. applyUserInfo act c a0 = Inr a1 \<and> status a1 = status a0 \<and> uuid a1 = uuid a0
           \<and> metadata a1 = metadata a0"
  using assms by (auto simp: applyUserInfo_def Let_def)

lemma applyMetaData_fields:
  assumes "applyMetaData act c md a1 = Inr a2"
  shows "status a2 = status a1 \<and> uuid a2 = uuid a1"
  using assms by (auto simp: applyMetaData_def split: option.splits sum.splits)

lemma middleware_unfold:
  assumes "logger m = Some lg" "next ctx = (c, thrown)"
  shows "middleware m next ctx =
           (c, thrown, HandlerRun #
              output_audit m c (ctx_reqId ctx) (fst (outcome c thrown)) (snd (outcome c thrown)))"
  using assms by (simp add: middleware_def Let_def split: prod.splits)

lemma middleware_caller:
  "fst (middleware m next ctx) = fst (next ctx) \<and> fst (snd (middleware m next ctx)) = snd (next ctx)"
  by (simp add: middleware_def Let_def split: prod.splits)

text \<open>
  Claim C2, as amended. Let a sink be configured, let the handler return
  normally, let the request match a rule that has no metadata extractor, and
  let the user hook of the rule, if any, not fail. Then the caller sees a
  normal return and exactly one record is handed to the sink; its \<open>status\<close> is
  1, its \<open>uuid\<close> is the request id, and its metadata are the request params,
  query and body and the response body (\<open>null\<close> in place of a buffer, a
  stream or a falsy body). The record has no field for the HTTP status.
\<close>

theorem success_record:
  assumes lg: "logger m = Some lg" and nx: "next ctx = (c, None)"
    and act: "getAction m (ctx_actionName c) (ctx_resourceName c) = Some act"
    and nomd: "getMetaData act = None"
    and ui: "getUserInfo act = None \<or> (\<exists>hook u. getUserInfo act = Some hook \<and> hook c = Inr u)"
  shows "fst (snd (middleware m next ctx)) = None \<and>
         (\<exists>al. emitted (snd (snd (middleware m next ctx))) = [al] \<and> status al = 1 \<and>
            uuid al = ctx_reqId ctx \<and>
            metadata al =
              JObj [(''request'', JObj [(''params'', ctx_request_params c),
                                       (''query'', ctx_request_query c),
                                       (''body'', ctx_request_body c)]),
                    (''response'', JObj [(''body'',
                        if truthy (ctx_body c) \<and> \<not> isBuffer (ctx_body c) \<and> \<not> isStream (ctx_body c)
                        then ctx_body c else JNull)])])"
proof -
  let ?a0 = "newAuditLog c (ctx_reqId ctx) 1"
  from applyUserInfo_ok[OF ui] obtain a1 where
    a1: "applyUserInfo act c ?a0 = Inr a1" "status a1 = status ?a0" "uuid a1 = uuid ?a0" by blast
  let ?a2 = "a1\<lparr>metadata := JObj (spread2 [] (getDefaultMetaData c))\<rparr>"
  have a2: "applyMetaData act c [] a1 = Inr ?a2" using nomd by (simp add: applyMetaData_def)
  have em: "emitted (fst (output_try m c (ctx_reqId ctx) 1 [])) = [?a2]"
    by (rule emitted_output_try[OF act a1(1) a2 lg])
  have mw: "snd (snd (middleware m next ctx)) = HandlerRun # output_audit m c (ctx_reqId ctx) 1 []"
    using middleware_unfold[of m lg "next" ctx c, OF lg nx] by (simp add: outcome_def)
  have "emitted (snd (snd (middleware m next ctx))) = [?a2]"
    unfolding mw using em by (simp add: emitted_output_audit)
  moreover have "status ?a2 = 1" "uuid ?a2 = ctx_reqId ctx" using a1 by (simp_all add: newAuditLog_def)
  moreover have "metadata ?a2 = JObj (getDefaultMetaData c)" by (simp add: spread2_empty_default)
  moreover have "fst (snd (middleware m next ctx)) = None" using middleware_caller[of m "next" ctx] nx by simp
  ultimately show ?thesis by (simp add: getDefaultMetaData_def)
qed

text \<open>
  Claim C3, as amended. Let a sink be configured, let the handler throw
  \<open>err\<close>, let the request match a rule whose hooks do not fail and whose
  metadata extractor, if any, returns neither the key \<open>errMsg\<close> nor the key
  \<open>status\<close>. Then the caller gets \<open>err\<close> itself, and exactly one record is
  handed to the sink, with \<open>status\<close> 0, \<open>metadata.errMsg\<close> the message of \<open>err\<close>
  and \<open>metadata.status\<close> the status of the context when the handler threw.
\<close>

theorem failure_record:
  assumes lg: "logger m = Some lg" and nx: "next ctx = (c, Some err)"
    and act: "getAction m (ctx_actionName c) (ctx_resourceName c) = Some act"
    and ui: "getUserInfo act = None \<or> (\<exists>hook u. getUserInfo act = Some hook \<and> hook c = Inr u)"
    and md: "getMetaData act = None \<or>
             (\<exists>hook extra. getMetaData act = Some hook \<and> hook c = Inr extra \<and>
                ''errMsg'' \<notin> fst ` set extra \<and> ''status'' \<notin> fst ` set extra)"
  shows "fst (snd (middleware m next ctx)) = Some err \<and>
         (\<exists>al. emitted (snd (snd (middleware m next ctx))) = [al] \<and> status al = 0 \<and>
            get_prop (metadata al) ''errMsg'' = JStr (message err) \<and>
            get_prop (metadata al) ''status'' = JNum (ctx_status c))"
proof -
  let ?md = "[(''status'', JNum (ctx_status c)), (''errMsg'', JStr (message err))]"
  let ?a0 = "newAuditLog c (ctx_reqId ctx) 0"
  from applyUserInfo_ok[OF ui] obtain a1 where
    a1: "applyUserInfo act c ?a0 = Inr a1" "status a1 = status ?a0" by blast
  have "\<exists>extra. applyMetaData act c ?md a1 = Inr (a1\<lparr>metadata := JObj (spread2 ?md extra)\<rparr>)
          \<and> ''errMsg'' \<notin> fst ` set extra \<and> ''status'' \<notin> fst ` set extra"
  proof (cases "getMetaData act")
    case None
    then have "applyMetaData act c ?md a1 = Inr (a1\<lparr>metadata := JObj (spread2 ?md (getDefaultMetaData c))\<rparr>)"
      by (simp add: applyMetaData_def)
    moreover have "''errMsg'' \<notin> fst ` set (getDefaultMetaData c)" "''status'' \<notin> fst ` set (getDefaultMetaData c)"
      by (simp_all add: getDefaultMetaData_def)
    ultimately show ?thesis by blast
  next
    case (Some hook)
    with md obtain extra where "hook c = Inr extra"
      "''errMsg'' \<notin> fst ` set extra" "''status'' \<notin> fst ` set extra" by auto
    with Some show ?thesis by (auto simp: applyMetaData_def)
  qed
  then obtain extra where
    a2: "applyMetaData act c ?md a1 = Inr (a1\<lparr>metadata := JObj (spread2 ?md extra)\<rparr>)"
    and ne: "''errMsg'' \<notin> fst ` set extra" "''status'' \<notin> fst ` set extra" by blast
  let ?a2 = "a1\<lparr>metadata := JObj (spread2 ?md extra)\<rparr>"
  have em: "emitted (fst (output_try m c (ctx_reqId ctx) 0 ?md)) = [?a2]"
    by (rule emitted_output_try[OF act a1(1) a2 lg])
  have mw: "snd (snd (middleware m next ctx)) = HandlerRun # output_audit m c (ctx_reqId ctx) 0 ?md"
    using middleware_unfold[of m lg "next" ctx c, OF lg nx] by (simp add: outcome_def)
  have "emitted (snd (snd (middleware m next ctx))) = [?a2]"
    unfolding mw using em by (simp add: emitted_output_audit)
  moreover have "status ?a2 = 0" using a1 by (simp add: newAuditLog_def)
  moreover have "get_prop (metadata ?a2) ''errMsg'' = JStr (message err)"
    using get_prop_spread2_left[of ?md "''errMsg''" "JStr (message err)" extra] ne by simp
  moreover have "get_prop (metadata ?a2) ''status'' = JNum (ctx_status c)"
    using get_prop_spread2_left[of ?md "''status''" "JNum (ctx_status c)" extra] ne by simp
  moreover have "fst (snd (middleware m next ctx)) = Some err" using middleware_caller[of m "next" ctx] nx by simp
  ultimately show ?thesis by blast
qed

lemma output_audit_failure:
  assumes "output_try m c r st md = (evs, Some err)"
  shows "output_audit m c r st md =
           evs @ (if ctx_log c then [LogError (''audit output error: '' @ message err)] else [])"
  using assms by (simp add: output_audit_def)

text \<open>
  Claim C4, as amended. Let a sink be configured and the request match a
  rule. If the user hook fails with \<open>err\<close>, or the metadata extractor fails
  with \<open>err\<close>, or the call of the sink throws \<open>err\<close>, then the caller still gets
  the context and the outcome of the handler, unchanged, and the error is
  reported as \<^verbatim>\<open>audit output error: \<close> followed by its message when the
  context has a log, and dropped when it has none. Resolving the rule and
  building the record raise no error on a context of the type above.
\<close>

theorem audit_errors_contained:
  assumes lg: "logger m = Some lg" and nx: "next ctx = (c, thrown)"
    and act: "getAction m (ctx_actionName c) (ctx_resourceName c) = Some act"
    and fail:
      "(\<exists>hook. getUserInfo act = Some hook \<and> hook c = Inl err)
       \<or> (\<exists>a1 hook. applyUserInfo act c (newAuditLog c (ctx_reqId ctx) (fst (outcome c thrown))) = Inr a1
              \<and> getMetaData act = Some hook \<and> hook c = Inl err)
       \<or> (\<exists>a1 a2. applyUserInfo act c (newAuditLog c (ctx_reqId ctx) (fst (outcome c thrown))) = Inr a1
              \<and> applyMetaData act c (snd (outcome c thrown)) a1 = Inr a2
              \<and> lg a2 = SinkThrows err)"
  shows "\<exists>evs. middleware m next ctx =
           (c, thrown, HandlerRun # evs @
              (if ctx_log c then [LogError (''audit output error: '' @ message err)] else []))
         \<and> (evs = [] \<or> (\<exists>al. evs = [SinkCall al]))"
proof -
  let ?st = "fst (outcome c thrown)" and ?md = "snd (outcome c thrown)"
  have "\<exists>evs. output_try m c (ctx_reqId ctx) ?st ?md = (evs, Some err)
          \<and> (evs = [] \<or> (\<exists>al. evs = [SinkCall al]))"
    using fail
  proof (elim disjE exE conjE)
    fix hook assume "getUserInfo act = Some hook" "hook c = Inl err"
    then show ?thesis using act by (simp add: output_try_def applyUserInfo_def)
  next
    fix a1 hook
    assume "applyUserInfo act c (newAuditLog c (ctx_reqId ctx) ?st) = Inr a1"
      "getMetaData act = Some hook" "hook c = Inl err"
    then show ?thesis using act by (simp add: output_try_def applyMetaData_def)
  next
    fix a1 a2
    assume "applyUserInfo act c (newAuditLog c (ctx_reqId ctx) ?st) = Inr a1"
      "applyMetaData act c ?md a1 = Inr a2" "lg a2 = SinkThrows err"
    then show ?thesis using act lg by (simp add: output_try_def)
  qed
  then obtain evs where t: "output_try m c (ctx_reqId ctx) ?st ?md = (evs, Some err)"
    and e: "evs = [] \<or> (\<exists>al. evs = [SinkCall al])" by blast
  show ?thesis
    using middleware_unfold[of m lg "next" ctx c thrown, OF lg nx] output_audit_failure[OF t] e
    by auto
qed

section \<open>The pipeline on the examples\<close>

lemma parseAction_examples2:
  "parseAction ''user:update'' = (''user'', ''update'')"
  by (simp_all add: parseAction_def resourceWildcardRegex_def resourceAndActionRegex_def nameRegex_def nameChar_def)

lemmas run_simps = manager_of_def setLogger_def registerActions_def registerAction_def
  parseAction_examples parseAction_examples2 getAction_def new_manager_def

lemmas pipeline_simps = middleware_def outcome_def output_audit_def output_try_def
  newAuditLog_def formatAuditData_def splitResourceName_def formatResourceUk_def
  applyUserInfo_def applyMetaData_def getDefaultMetaData_def spread2_def obj_assign_def
  sample_ctx_def handler_ok_def handler_boom_def

text \<open>
  The theorem of C2 at the request \<open>user:create\<close> answered with status 200,
  with the bare action \<open>create\<close> registered.
\<close>

theorem success_record_witness:
  "fst (snd (middleware (manager_of [ActString ''create''] sink_ok) handler_ok sample_ctx)) = None
   \<and> map status (emitted (snd (snd (middleware (manager_of [ActString ''create''] sink_ok)
                                     handler_ok sample_ctx)))) = [1]
   \<and> map metadata (emitted (snd (snd (middleware (manager_of [ActString ''create''] sink_ok)
                                     handler_ok sample_ctx)))) =
        [JObj [(''request'', JObj [(''params'', JObj []), (''query'', JObj []),
                                  (''body'', JObj [(''nickname'', JStr ''ann'')])]),
               (''response'', JObj [(''body'', JObj [(''data'', JNum 7)])])]]"
proof -
  let ?m = "manager_of [ActString ''create''] sink_ok"
  have lg: "logger ?m = Some sink_ok" by (simp add: manager_of_def setLogger_def)
  have nx: "handler_ok sample_ctx = (sample_ctx, None)" by (simp add: handler_ok_def)
  have act: "getAction ?m (ctx_actionName sample_ctx) (ctx_resourceName sample_ctx)
               = Some \<lparr>name = ''create'', getMetaData = None, getUserInfo = None\<rparr>"
    by (simp add: run_simps sample_ctx_def)
  show ?thesis
    using success_record[of ?m sink_ok handler_ok sample_ctx sample_ctx, OF lg nx act]
    by (auto simp: sample_ctx_def)
qed

text \<open>
  Claim C2 as stated fails. The record of a request answered with the HTTP
  status 200 has \<open>status = 1\<close> and holds the value 200 nowhere; and when the
  matched rule has a metadata extractor, the metadata are its output alone,
  without the request and the response.
\<close>

theorem success_record_counterexample:
  "emitted (snd (snd (middleware (manager_of [ActString ''create''] sink_ok)
                        handler_ok sample_ctx)))
     = [\<lparr>uuid = ''req-1'', dataSource = ''main'', resource = Some ''user'',
          collection = ''user'', association = [], action = ''create'',
          resourceUk = JStr [], userId = JNum 1, roleName = JStr ''admin'',
          ip = ''127.0.0.1'', ua = Some ''curl'', status = 1,
          metadata =
            JObj [(''request'', JObj [(''params'', JObj []), (''query'', JObj []),
                                     (''body'', JObj [(''nickname'', JStr ''ann'')])]),
                  (''response'', JObj [(''body'', JObj [(''data'', JNum 7)])])]\<rparr>]
   \<and> ctx_response_status sample_ctx = 200
   \<and> map metadata (emitted (snd (snd (middleware
         (manager_of [ActString ''create'',
                      ActObject \<lparr>name = ''user:create'', getMetaData = Some e1,
                                 getUserInfo = None\<rparr>] sink_ok)
         handler_ok sample_ctx))))
     = [JObj [(''source'', JStr ''e1'')]]"
  by (simp add: run_simps pipeline_simps sink_ok_def e1_def)

text \<open>The theorem of C3 at a handler that sets the status 500 and throws \<open>boom\<close>.\<close>

theorem failure_record_witness:
  "fst (snd (middleware (manager_of [ActString ''create''] sink_ok) handler_boom sample_ctx))
     = Some (Error ''boom'')
   \<and> map status (emitted (snd (snd (middleware (manager_of [ActString ''create''] sink_ok)
                                     handler_boom sample_ctx)))) = [0]
   \<and> map metadata (emitted (snd (snd (middleware (manager_of [ActString ''create''] sink_ok)
                                     handler_boom sample_ctx)))) =
        [JObj [(''status'', JNum 500), (''errMsg'', JStr ''boom''),
               (''request'', JObj [(''params'', JObj []), (''query'', JObj []),
                                  (''body'', JObj [(''nickname'', JStr ''ann'')])]),
               (''response'', JObj [(''body'', JObj [(''data'', JNum 7)])])]]"
proof -
  let ?m = "manager_of [ActString ''create''] sink_ok"
  let ?c = "sample_ctx\<lparr>ctx_response_status := 500, ctx_status := 500\<rparr>"
  have lg: "logger ?m = Some sink_ok" by (simp add: manager_of_def setLogger_def)
  have nx: "handler_boom sample_ctx = (?c, Some (Error ''boom''))" by (simp add: handler_boom_def)
  have act: "getAction ?m (ctx_actionName ?c) (ctx_resourceName ?c)
               = Some \<lparr>name = ''create'', getMetaData = None, getUserInfo = None\<rparr>"
    by (simp add: run_simps sample_ctx_def)
  have md: "map metadata (emitted (snd (snd (middleware ?m handler_boom sample_ctx)))) =
        [JObj [(''status'', JNum 500), (''errMsg'', JStr ''boom''),
               (''request'', JObj [(''params'', JObj []), (''query'', JObj []),
                                  (''body'', JObj [(''nickname'', JStr ''ann'')])]),
               (''response'', JObj [(''body'', JObj [(''data'', JNum 7)])])]]"
    by (simp add: run_simps pipeline_simps sink_ok_def)
  show ?thesis
    using failure_record[of ?m sink_ok handler_boom sample_ctx ?c "Error ''boom''", OF lg nx act] md
    by auto
qed

text \<open>
  Claim C3 as stated fails. When the extractor of the matched rule returns
  the key \<open>errMsg\<close>, the record carries the extractor's value and not the
  message \<open>boom\<close>; and when the user hook of the matched rule fails, no record
  is handed to the sink at all.
\<close>

theorem failure_record_counterexample:
  "map metadata
     (emitted (snd (snd (middleware
        (manager_of [ActObject \<lparr>name = ''user:create'', getMetaData = Some masking_extractor,
                                getUserInfo = None\<rparr>] sink_ok)
        handler_boom sample_ctx))))
     = [JObj [(''status'', JNum 500), (''errMsg'', JStr ''masked'')]]
   \<and> emitted (snd (snd (middleware
        (manager_of [ActObject \<lparr>name = ''user:create'', getMetaData = None,
                                getUserInfo = Some failing_user_hook\<rparr>] sink_ok)
        handler_boom sample_ctx)))
     = []"
  by (simp add: run_simps pipeline_simps sink_ok_def masking_extractor_def failing_user_hook_def)

text \<open>The theorem of C4 at a rule whose user hook fails, on a context with a log.\<close>

theorem audit_errors_contained_witness:
  "middleware
     (manager_of [ActObject \<lparr>name = ''user:create'', getMetaData = None,
                             getUserInfo = Some failing_user_hook\<rparr>] sink_ok)
     handler_ok sample_ctx
   = (sample_ctx, None, [HandlerRun, LogError ''audit output error: db down''])"
proof -
  let ?r = "\<lparr>name = ''user:create'', getMetaData = None, getUserInfo = Some failing_user_hook\<rparr>"
  let ?m = "manager_of [ActObject ?r] sink_ok"
  have lg: "logger ?m = Some sink_ok" by (simp add: manager_of_def setLogger_def)
  have nx: "handler_ok sample_ctx = (sample_ctx, None)" by (simp add: handler_ok_def)
  have act: "getAction ?m (ctx_actionName sample_ctx) (ctx_resourceName sample_ctx) = Some ?r"
    by (simp add: run_simps sample_ctx_def)
  have fail: "\<exists>hook. getUserInfo ?r = Some hook \<and> hook sample_ctx = Inl (Error ''db down'')"
    by (simp add: failing_user_hook_def)
  from audit_errors_contained[of ?m sink_ok handler_ok sample_ctx sample_ctx None ?r
      "Error ''db down''", OF lg nx act disjI1, OF fail]
  obtain evs where
    "middleware ?m handler_ok sample_ctx =
       (sample_ctx, None, HandlerRun # evs @
          (if ctx_log sample_ctx then [LogError (''audit output error: '' @ message (Error ''db down''))] else []))"
    by blast
  moreover have "snd (snd (middleware ?m handler_ok sample_ctx))
                   = [HandlerRun, LogError ''audit output error: db down'']"
    by (simp add: run_simps pipeline_simps failing_user_hook_def)
  ultimately show ?thesis by (simp add: sample_ctx_def)
qed

text \<open>
  Claim C4 as stated fails. On a context with no log, the error of the
  failing user hook is reported nowhere; and when the promise returned by the
  sink rejects, the error is neither caught nor reported: apart from the call
  of the sink, the events are the run of the handler and a rejection that
  nobody handles.
\<close>

theorem audit_errors_contained_counterexample:
  "middleware
     (manager_of [ActObject \<lparr>name = ''user:create'', getMetaData = None,
                             getUserInfo = Some failing_user_hook\<rparr>] sink_ok)
     handler_ok (sample_ctx\<lparr>ctx_log := False\<rparr>)
   = (sample_ctx\<lparr>ctx_log := False\<rparr>, None, [HandlerRun])
   \<and> reported (snd (snd (middleware (manager_of [ActString ''create''] sink_rejects)
                           handler_ok sample_ctx))) = []
   \<and> unhandled (snd (snd (middleware (manager_of [ActString ''create''] sink_rejects)
                            handler_ok sample_ctx))) = [Error ''write failed'']"
  by (simp add: run_simps pipeline_simps failing_user_hook_def sink_rejects_def)

text \<open>
  The theorem of C8 at a request \<open>user:create\<close> that matches no rule (the
  resource \<open>user\<close> has a bucket, with \<open>update\<close> alone), the handler throwing; and
  at a manager with no sink.
\<close>

theorem unmatched_or_no_sink_witness:
  "middleware (manager_of [ActString ''create'', ActString ''user:update''] sink_ok)
     handler_boom sample_ctx
   = (sample_ctx\<lparr>ctx_response_status := 500, ctx_status := 500\<rparr>, Some (Error ''boom''),
      [HandlerRun])
   \<and> middleware (registerActions [ActString ''create''] new_manager) handler_ok sample_ctx
   = (sample_ctx, None, [HandlerRun])"
proof -
  let ?m = "manager_of [ActString ''create'', ActString ''user:update''] sink_ok"
  have h1: "logger ?m = None \<or>
        getAction ?m (ctx_actionName (fst (handler_boom sample_ctx)))
          (ctx_resourceName (fst (handler_boom sample_ctx))) = None"
    by (simp add: run_simps sample_ctx_def handler_boom_def)
  let ?n = "registerActions [ActString ''create''] new_manager"
  have h2: "logger ?n = None \<or>
        getAction ?n (ctx_actionName (fst (handler_ok sample_ctx)))
          (ctx_resourceName (fst (handler_ok sample_ctx))) = None"
    by (simp add: run_simps)
  show ?thesis
    using unmatched_or_no_sink[of ?m handler_boom sample_ctx, OF h1]
      unmatched_or_no_sink[of ?n handler_ok sample_ctx, OF h2]
    by (simp add: handler_boom_def handler_ok_def)
qed

text \<open>
  The theorem of C5 in the scenario of the specification: \<open>create\<close> and
  \<open>user:create\<close> with the extractor \<open>e1\<close> are registered, the request
  \<open>user:create\<close> resolves to the second, and the metadata are the caller's
  with the output of \<open>e1\<close>, without the default fields.
\<close>

theorem metadata_merge_witness:
  "map_option name (getAction (manager_of [ActString ''create'',
              ActObject \<lparr>name = ''user:create'', getMetaData = Some e1, getUserInfo = None\<rparr>] sink_ok)
            ''create'' (Some ''user'')) = Some ''user:create''
   \<and> map metadata (emitted (output_audit
        (manager_of [ActString ''create'',
              ActObject \<lparr>name = ''user:create'', getMetaData = Some e1, getUserInfo = None\<rparr>] sink_ok)
        sample_ctx ''req-1'' 1 [(''caller'', JBool True)]))
     = [JObj [(''caller'', JBool True), (''source'', JStr ''e1'')]]"
proof -
  let ?r = "\<lparr>name = ''user:create'', getMetaData = Some e1, getUserInfo = None\<rparr>"
  let ?m = "manager_of [ActString ''create'', ActObject ?r] sink_ok"
  let ?md = "[(''caller'', JBool True)]"
  let ?al = "(newAuditLog sample_ctx ''req-1'' 1)\<lparr>metadata := JObj (spread2 ?md [(''source'', JStr ''e1'')])\<rparr>"
  have out: "output_audit ?m sample_ctx ''req-1'' 1 ?md = [SinkCall ?al]"
    by (simp add: run_simps output_audit_def output_try_def applyUserInfo_def applyMetaData_def
        sample_ctx_def sink_ok_def e1_def)
  then have "SinkCall ?al \<in> set (output_audit ?m sample_ctx ''req-1'' 1 ?md)" by simp
  from metadata_merge[OF this] obtain act where
    a: "getAction ?m (ctx_actionName sample_ctx) (ctx_resourceName sample_ctx) = Some act"
    and c: "case getMetaData act of
        Some hook \<Rightarrow> \<exists>extra. hook sample_ctx = Inr extra \<and> metadata ?al = JObj (spread2 ?md extra) \<and>
             (\<forall>k v. distinct (map fst extra) \<and> (k, v) \<in> set extra \<longrightarrow> get_prop (metadata ?al) k = v) \<and>
             (\<forall>k. k \<notin> fst ` set ?md \<and> k \<notin> fst ` set extra \<longrightarrow> get_prop (metadata ?al) k = JUndefined)
      | None \<Rightarrow> metadata ?al = JObj (spread2 ?md (getDefaultMetaData sample_ctx))"
    by blast
  have r: "getAction ?m ''create'' (Some ''user'') = Some ?r" by (simp add: run_simps)
  with a have "act = ?r" by (simp add: sample_ctx_def)
  with c have "metadata ?al = JObj (spread2 ?md [(''source'', JStr ''e1'')])"
    by (simp add: e1_def)
  moreover have "spread2 ?md [(''source'', JStr ''e1'')] = [(''caller'', JBool True), (''source'', JStr ''e1'')]"
    by (simp add: spread2_def obj_assign_def)
  ultimately have "metadata ?al = JObj [(''caller'', JBool True), (''source'', JStr ''e1'')]"
    by (simp only:)
  with r out show ?thesis by simp
qed

end
